theory Spec2Isabelle
  imports Main
begin

section \<open>Values exchanged with the gateway adapter\<close>

text \<open>
  The facade of \<^verbatim>\<open>src/Bot/Bot.ts\<close> only stores, compares and forwards the numbers it is
  given (account ids, message ids, the correlation counter); no arithmetic is done on them,
  so a JavaScript \<^verbatim>\<open>number\<close> is an \<open>int\<close> here. An optional property or parameter
  (\<^verbatim>\<open>x?: T\<close>) is an \<open>option\<close>, with \<open>None\<close> for \<^verbatim>\<open>undefined\<close>.
\<close>

type_synonym number = int

text \<open>
  A JavaScript error object. \<open>Error m\<close> is \<^verbatim>\<open>new Error(m)\<close>, the only kind the facade
  creates itself; \<open>NamedError n m\<close> is an instance of another error class, with the name \<open>n\<close>
  of its class (\<^verbatim>\<open>TypeError\<close>, ...) and the message \<open>m\<close>, as an adapter may reject with.
\<close>

datatype error = Error string | NamedError string string

text \<open>
  \<^verbatim>\<open>MessageChain\<close> is an array of typed segments. The facade builds one kind of segment
  itself, \<^verbatim>\<open>{ type: 'Plain', text }\<close>; every other kind reaches it ready-made from the
  caller and is only passed on.
\<close>

datatype segment = Plain string | Segment string

type_synonym MessageChain = "segment list"

text \<open>The \<^verbatim>\<open>message\<close> argument of \<^verbatim>\<open>sendMessage\<close>: \<^verbatim>\<open>string | MessageChain\<close>.\<close>

datatype message = Text string | Chain MessageChain

record send_request =
  target :: number
  messageChain :: MessageChain

record send_response =
  messageId :: "number option"

text \<open>\<^verbatim>\<open>getAbout\<close> of the adapter resolves to \<^verbatim>\<open>{ data: { version, ... } }\<close>.\<close>

record about =
  about_version :: string

record about_response =
  about_data :: about

text \<open>
  A settled promise: fulfilled with a value, or rejected with a reason. An exception thrown
  synchronously is a value of a sum type instead (\<open>Inl\<close> the exception), so that the two
  ways of failing stay apart.
\<close>

datatype 'a promise = Fulfilled 'a | Rejected error

text \<open>
  The adapter (\<^verbatim>\<open>ServiceInterfaceDefMap[Versions]\<close>) as the facade uses it: three
  request methods, each returning a promise. Its two event streams are consumed through the
  callbacks \<open>miraiEvent_listener\<close> and \<open>error_listener\<close> below.
\<close>

record service =
  sendFriendMessage :: "send_request \<Rightarrow> send_response promise"
  sendGroupMessage :: "send_request \<Rightarrow> send_response promise"
  getAbout :: "about_response promise"

text \<open>The argument of \<^verbatim>\<open>Bot.create\<close> and of the constructor of \<^verbatim>\<open>BotImpl\<close>.\<close>

record bot_opts =
  url :: string
  verifyKey :: string
  bot_qq :: number
  syncId :: "number option"
  version :: "string option"

text \<open>The argument of \<^verbatim>\<open>MiraiServiceFactory.create\<close>, the defaults filled in.\<close>

record service_opts =
  service_url :: string
  service_verifyKey :: string
  service_qq :: number
  service_syncId :: number
  service_version :: string

text \<open>The argument of \<^verbatim>\<open>sendMessage\<close>.\<close>

record send_opts =
  qq :: "number option"
  group :: "number option"
  message :: message

text \<open>What the facade does to its collaborators, in the order it does it.\<close>

datatype effect =
    FactoryCreate service_opts
  | ServiceOn string
  | ServiceGetAbout
  | ServiceSendFriendMessage send_request
  | ServiceSendGroupMessage send_request

section \<open>Inbound envelopes\<close>

text \<open>
  \<^verbatim>\<open>interface GenericEvent { syncId: number, data: { type: string, ...any } }\<close>.
  The listener reads it with optional chaining (\<^verbatim>\<open>data?.data?.type\<close>), so the envelope,
  its \<^verbatim>\<open>data\<close> and the \<^verbatim>\<open>type\<close> tag may each be absent.
\<close>

record event_data =
  type :: "string option"
  rest :: string

record envelope =
  envelope_syncId :: number
  data :: "event_data option"

text \<open>The values that travel through the facade's emitter.\<close>

datatype jsval = Undefined | Data event_data | ErrorObj error

section \<open>ProcessChain\<close>

text \<open>
  Modelled from the spec: the class \<^verbatim>\<open>ProcessChain\<close> and the type \<^verbatim>\<open>MiddlewareFunc\<close>
  (module \<^verbatim>\<open>../Middleware\<close>) are imported by \<^verbatim>\<open>Bot.ts\<close> and are not among the sources.
  The spec (section 4.4): a chain is an ordered sequence of stages; a stage maps the current
  payload to a payload to pass onward or to a terminal signal that stops the chain for this
  occurrence, or it raises a failure, which terminates the run for that occurrence without
  propagating to the dispatcher; \<^verbatim>\<open>pipe\<close> appends one stage at the end and returns the same
  chain; \<^verbatim>\<open>run\<close> executes stage 0, then stage 1 on the output of stage 0, and so on, each
  stage awaited to completion before the next starts.
\<close>

datatype 'a stage_result = Next 'a | Terminate | Fail error

type_synonym 'a MiddlewareFunc = "'a \<Rightarrow> 'a stage_result"

record 'a ProcessChain =
  stages :: "'a MiddlewareFunc list"

text \<open>
  Modelled from the spec: \<^verbatim>\<open>new ProcessChain()\<close> and \<^verbatim>\<open>pipe\<close> of the missing class. A chain
  is created without stages; \<^verbatim>\<open>pipe(stage)\<close> appends one stage to the end.
\<close>

definition new_ProcessChain :: "'a ProcessChain" where
  "new_ProcessChain = \<lparr>stages = []\<rparr>"

definition pipe :: "'a MiddlewareFunc \<Rightarrow> 'a ProcessChain \<Rightarrow> 'a ProcessChain" where
  "pipe f c = c\<lparr>stages := stages c @ [f]\<rparr>"

text \<open>
  Modelled from the spec: \<^verbatim>\<open>run\<close> of the missing class. One occurrence is the sequence of
  its steps (stage \<open>k\<close> starts on an input, stage \<open>k\<close> completes with a result) and the way
  it ends. A stage that passes a payload on hands it to the next stage; the terminal signal
  and a failure both end the occurrence there.
\<close>

datatype 'a step = StageStart nat 'a | StageEnd nat "'a stage_result"

datatype 'a outcome = Completed 'a | Terminated | Failed error

fun run_from :: "nat \<Rightarrow> 'a MiddlewareFunc list \<Rightarrow> 'a \<Rightarrow> 'a step list \<times> 'a outcome" where
  "run_from k [] x = ([], Completed x)"
| "run_from k (f # fs) x =
     (case f x of
        Next y \<Rightarrow>
          (case run_from (Suc k) fs y of
             (tr, out) \<Rightarrow> (StageStart k x # StageEnd k (Next y) # tr, out))
      | Terminate \<Rightarrow> ([StageStart k x, StageEnd k Terminate], Terminated)
      | Fail e \<Rightarrow> ([StageStart k x, StageEnd k (Fail e)], Failed e))"

definition run :: "'a ProcessChain \<Rightarrow> 'a \<Rightarrow> 'a step list \<times> 'a outcome" where
  "run c x = run_from 0 (stages c) x"

section \<open>EventEmitter\<close>

text \<open>
  The facade owns one \<^verbatim>\<open>EventEmitter\<close> of Node's \<^verbatim>\<open>events\<close> module. Two kinds of
  listener are ever attached to it: \<^verbatim>\<open>chain.run.bind(chain)\<close> by \<^verbatim>\<open>on\<close>, where the
  chain is an object shared with the caller and so is named by its reference (its index in
  the store of chains), and a caller's function by \<^verbatim>\<open>onError\<close>, which returns normally
  (\<open>None\<close>) or throws.
\<close>

datatype listener = ChainRun nat | Handler "jsval \<Rightarrow> error option"

text \<open>Listeners by event name, each list in registration order.\<close>

type_synonym EventEmitter = "string \<Rightarrow> listener list"

definition new_EventEmitter :: EventEmitter where
  "new_EventEmitter = (\<lambda>_. [])"

definition emitter_on :: "string \<Rightarrow> listener \<Rightarrow> EventEmitter \<Rightarrow> EventEmitter" where
  "emitter_on name l e = e(name := e name @ [l])"

text \<open>
  \<^verbatim>\<open>emit\<close> looks its listeners up with \<^verbatim>\<open>events[type]\<close>: an \<^verbatim>\<open>undefined\<close> event name
  is coerced to the property key \<^verbatim>\<open>'undefined'\<close>.
\<close>

definition property_key :: "string option \<Rightarrow> string" where
  "property_key name = (case name of None \<Rightarrow> ''undefined'' | Some s \<Rightarrow> s)"

text \<open>
  What leaves \<^verbatim>\<open>emit\<close> as an exception: an error thrown as it is, or Node's
  \<^verbatim>\<open>ERR_UNHANDLED_ERROR\<close> wrapped around a value that is not an \<^verbatim>\<open>Error\<close>.
\<close>

datatype thrown = Throw error | ERR_UNHANDLED_ERROR jsval

text \<open>
  Modelled from the spec: what \<^verbatim>\<open>ProcessChain.run\<close>, which is not among the sources, throws
  into the emitter that calls it. By the spec (section 4.4) a failing stage ends the
  occurrence and is never propagated to the dispatcher, so the call of a chain's \<^verbatim>\<open>run\<close>
  returns to \<^verbatim>\<open>emit\<close> without throwing. A handler of \<^verbatim>\<open>onError\<close> throws what it throws.
\<close>

fun invoke :: "listener \<Rightarrow> jsval \<Rightarrow> error option" where
  "invoke (ChainRun c) v = None"
| "invoke (Handler h) v = h v"

type_synonym delivery = "listener \<times> jsval"

text \<open>
  The listeners are called synchronously in registration order; an exception thrown by one
  leaves the loop, and the listeners after it are not called.
\<close>

fun call_listeners :: "listener list \<Rightarrow> jsval \<Rightarrow> delivery list \<times> thrown option" where
  "call_listeners [] v = ([], None)"
| "call_listeners (l # ls) v =
     (case invoke l v of
        Some e \<Rightarrow> ([(l, v)], Some (Throw e))
      | None \<Rightarrow> (case call_listeners ls v of (ds, t) \<Rightarrow> ((l, v) # ds, t)))"

text \<open>
  \<^verbatim>\<open>emit(type, arg)\<close>: the deliveries made, and either the exception that left it or its
  boolean result (whether the event had listeners). An \<^verbatim>\<open>'error'\<close> event without any
  listener is thrown: the argument itself if it is an \<^verbatim>\<open>Error\<close>, else
  \<^verbatim>\<open>ERR_UNHANDLED_ERROR\<close>.
\<close>

definition emit :: "EventEmitter \<Rightarrow> string option \<Rightarrow> jsval \<Rightarrow> delivery list \<times> (thrown + bool)" where
  "emit e name v =
     (if name = Some ''error'' \<and> e ''error'' = [] then
        ([], Inl (case v of ErrorObj er \<Rightarrow> Throw er | _ \<Rightarrow> ERR_UNHANDLED_ERROR v))
      else if e (property_key name) = [] then ([], Inr False)
      else (case call_listeners (e (property_key name)) v of
              (ds, Some t) \<Rightarrow> (ds, Inl t)
            | (ds, None) \<Rightarrow> (ds, Inr True)))"

section \<open>BotImpl\<close>

text \<open>
  The fields of \<^verbatim>\<open>BotImpl\<close> (\<open>bot_version\<close> is \<^verbatim>\<open>_version\<close>), and with them the store of
  the \<^verbatim>\<open>ProcessChain\<close> objects that \<^verbatim>\<open>on\<close> has allocated: \<open>ChainRun c\<close> in the emitter
  and the reference \<open>c\<close> returned to the caller name the same object \<open>heap b ! c\<close>.
\<close>

record BotImpl =
  service :: service
  bot_version :: string
  emitter :: EventEmitter
  heap :: "jsval ProcessChain list"

text \<open>The destructuring defaults \<^verbatim>\<open>syncId = -1\<close> and \<^verbatim>\<open>version = '2.6.0'\<close>.\<close>

definition default_to :: "'a \<Rightarrow> 'a option \<Rightarrow> 'a" where
  "default_to d x = (case x of None \<Rightarrow> d | Some y \<Rightarrow> y)"

definition service_opts_of :: "bot_opts \<Rightarrow> service_opts" where
  "service_opts_of opts =
     \<lparr>service_url = url opts, service_verifyKey = verifyKey opts, service_qq = bot_qq opts,
      service_syncId = default_to (- 1) (syncId opts),
      service_version = default_to ''2.6.0'' (version opts)\<rparr>"

text \<open>
  The synchronous part of the constructor. \<^verbatim>\<open>MiraiServiceFactory.create\<close> is not among
  the sources and is a parameter: it returns the adapter or throws. \<^verbatim>\<open>startListen\<close>
  attaches the two listeners to the adapter, and \<^verbatim>\<open>this.getAbout()\<close> issues the info
  query; what happens when that query settles is \<open>version_check\<close>.
\<close>

definition BotImpl_new :: "(service_opts \<Rightarrow> error + service) \<Rightarrow> bot_opts \<Rightarrow> effect list \<times> (error + BotImpl)" where
  "BotImpl_new factory opts =
     (case factory (service_opts_of opts) of
        Inl e \<Rightarrow> ([FactoryCreate (service_opts_of opts)], Inl e)
      | Inr svc \<Rightarrow>
          ([FactoryCreate (service_opts_of opts), ServiceOn ''miraiEvent'', ServiceOn ''error'',
            ServiceGetAbout],
           Inr \<lparr>service = svc, bot_version = default_to ''2.6.0'' (version opts),
                emitter = new_EventEmitter, heap = []\<rparr>))"


subsection \<open>The version check of the constructor\<close>







section \<open>Bot.create\<close>

definition versions :: "string set" where
  "versions = {''2.6.0''}"

text \<open>
  \<^verbatim>\<open>version ?? '2.6.0'\<close> is looked up in the set; the message interpolates \<^verbatim>\<open>version\<close>
  itself. The options are handed on with \<^verbatim>\<open>syncId\<close> already defaulted.
\<close>

definition create :: "(service_opts \<Rightarrow> error + service) \<Rightarrow> bot_opts \<Rightarrow> effect list \<times> (error + BotImpl)" where
  "create factory opts =
     (if default_to ''2.6.0'' (version opts) \<notin> versions
      then ([], Inl (Error (''Unsupported version: ''
                 @ (case version opts of None \<Rightarrow> ''undefined'' | Some v \<Rightarrow> v))))
      else BotImpl_new factory (opts\<lparr>syncId := Some (default_to (- 1) (syncId opts))\<rparr>))"

section \<open>Listening and subscribing\<close>

text \<open>
  The two callbacks that \<^verbatim>\<open>startListen\<close> attaches to the adapter:
  \<^verbatim>\<open>data => this.emitter.emit(data?.data?.type, data?.data)\<close> and
  \<^verbatim>\<open>err => this.emitter.emit('error', err)\<close>. Each returns what \<^verbatim>\<open>emit\<close> does, so an
  exception that leaves \<^verbatim>\<open>emit\<close> leaves the callback, into the adapter that called it.
\<close>

definition miraiEvent_listener :: "BotImpl \<Rightarrow> envelope option \<Rightarrow> delivery list \<times> (thrown + bool)" where
  "miraiEvent_listener b d =
     emit (emitter b) (Option.bind (Option.bind d data) type)
       (case Option.bind d data of None \<Rightarrow> Undefined | Some ed \<Rightarrow> Data ed)"

definition error_listener :: "BotImpl \<Rightarrow> jsval \<Rightarrow> delivery list \<times> (thrown + bool)" where
  "error_listener b err = emit (emitter b) (Some ''error'') err"

definition onError :: "(jsval \<Rightarrow> error option) \<Rightarrow> BotImpl \<Rightarrow> BotImpl" where
  "onError listener b = b\<lparr>emitter := emitter_on ''error'' (Handler listener) (emitter b)\<rparr>"

text \<open>
  \<^verbatim>\<open>on(event, listener?)\<close> returns the new chain (its reference) and leaves the facade with
  the chain allocated and its \<^verbatim>\<open>run\<close> attached to the emitter.
\<close>

definition on :: "string \<Rightarrow> jsval MiddlewareFunc option \<Rightarrow> BotImpl \<Rightarrow> nat \<times> BotImpl" where
  "on event listener b =
     (let chain = (case listener of Some f \<Rightarrow> pipe f new_ProcessChain | None \<Rightarrow> new_ProcessChain);
          c = length (heap b)
      in (c, b\<lparr>heap := heap b @ [chain], emitter := emitter_on event (ChainRun c) (emitter b)\<rparr>))"

text \<open>
  The facades that callers can obtain: built by the constructor, then extended by \<^verbatim>\<open>on\<close>
  and \<^verbatim>\<open>onError\<close>. The event names that \<^verbatim>\<open>on\<close> accepts are the keys of
  \<^verbatim>\<open>MiraiEventMap\<close>, a type declared in \<^verbatim>\<open>../types\<close>, which is not among the sources: the
  set of those keys is the parameter \<open>names\<close>.
\<close>

inductive reachable :: "string set \<Rightarrow> BotImpl \<Rightarrow> bool" for names :: "string set" where
  constructed: "BotImpl_new factory opts = (es, Inr b) \<Longrightarrow> reachable names b"
| subscribed: "reachable names b \<Longrightarrow> event \<in> names \<Longrightarrow> on event listener b = (c, b') \<Longrightarrow> reachable names b'"
| handled: "reachable names b \<Longrightarrow> reachable names (onError h b)"

section \<open>sendMessage\<close>

text \<open>
  An \<^verbatim>\<open>async\<close> method: the \<^verbatim>\<open>throw\<close> at its end rejects the promise it returns, and a
  rejected send rejects it with the same reason.
\<close>

definition message_id_of :: "send_response promise \<Rightarrow> number option promise" where
  "message_id_of p = (case p of Fulfilled r \<Rightarrow> Fulfilled (messageId r) | Rejected e \<Rightarrow> Rejected e)"

definition sendMessage :: "BotImpl \<Rightarrow> send_opts \<Rightarrow> effect list \<times> number option promise" where
  "sendMessage b opts =
     (let messageChain = (case message opts of Text s \<Rightarrow> [Plain s] | Chain c \<Rightarrow> c)
      in case qq opts of
           Some q \<Rightarrow>
             ([ServiceSendFriendMessage \<lparr>target = q, messageChain = messageChain\<rparr>],
              message_id_of (sendFriendMessage (service b) \<lparr>target = q, messageChain = messageChain\<rparr>))
         | None \<Rightarrow>
             (case group opts of
                Some g \<Rightarrow>
                  ([ServiceSendGroupMessage \<lparr>target = g, messageChain = messageChain\<rparr>],
                   message_id_of (sendGroupMessage (service b) \<lparr>target = g, messageChain = messageChain\<rparr>))
              | None \<Rightarrow> ([], Rejected (Error ''qq or group must be specified''))))"

section \<open>Observations and sample values\<close>

text \<open>The stages that started in one occurrence, each with the input it was given.\<close>

fun starts :: "'a step list \<Rightarrow> (nat \<times> 'a) list" where
  "starts [] = []"
| "starts (StageStart k v # tr) = (k, v) # starts tr"
| "starts (StageEnd k r # tr) = starts tr"


text \<open>An adapter, the options and the facade built from them, for the concrete instances.\<close>

definition sample_service :: service where
  "sample_service =
     \<lparr>sendFriendMessage = (\<lambda>r. Fulfilled \<lparr>messageId = Some 42\<rparr>),
      sendGroupMessage = (\<lambda>r. Fulfilled \<lparr>messageId = None\<rparr>),
      getAbout = Fulfilled \<lparr>about_data = \<lparr>about_version = ''2.7.1''\<rparr>\<rparr>\<rparr>"

definition sample_opts :: bot_opts where
  "sample_opts =
     \<lparr>url = ''http://localhost:8080'', verifyKey = ''key'', bot_qq = 10001,
      syncId = None, version = None\<rparr>"

definition sample_bot :: BotImpl where
  "sample_bot =
     \<lparr>service = sample_service, bot_version = ''2.6.0'', emitter = new_EventEmitter, heap = []\<rparr>"

definition sample_untyped :: envelope where
  "sample_untyped = \<lparr>envelope_syncId = - 1, data = Some \<lparr>type = None, rest = ''payload''\<rparr>\<rparr>"

definition sample_listening :: BotImpl where
  "sample_listening = snd (on ''FriendMessage'' None (onError (\<lambda>_. None) sample_bot))"

definition sample_error_event :: envelope where
  "sample_error_event = \<lparr>envelope_syncId = - 1, data = Some \<lparr>type = Some ''error'', rest = ''failure''\<rparr>\<rparr>"

definition sample_handled :: BotImpl where
  "sample_handled = onError (\<lambda>_. None) (onError (\<lambda>v. if v = Undefined then Some (Error ''none'') else None) sample_bot)"




definition sample_event :: envelope where
  "sample_event = \<lparr>envelope_syncId = - 1, data = Some \<lparr>type = Some ''FriendMessage'', rest = ''hi''\<rparr>\<rparr>"

definition sample_subscribed :: BotImpl where
  "sample_subscribed = snd (on ''FriendMessage'' None sample_bot)"

definition sample_stages :: "nat MiddlewareFunc list" where
  "sample_stages = [\<lambda>n. Next (n + 1), \<lambda>n. Next (2 * n), \<lambda>n. if n < 10 then Terminate else Next n, \<lambda>n. Next 0]"

section \<open>Construction\<close>

lemma service_opts_of_syncId:
  "default_to (- 1) (syncId opts) = s \<Longrightarrow>
   service_opts_of (opts\<lparr>syncId := Some s\<rparr>) = service_opts_of opts"
  by (auto simp: service_opts_of_def default_to_def)

lemma BotImpl_new_syncId:
  "default_to (- 1) (syncId opts) = s \<Longrightarrow>
   BotImpl_new factory (opts\<lparr>syncId := Some s\<rparr>) = BotImpl_new factory opts"
  by (simp add: BotImpl_new_def service_opts_of_syncId split: sum.splits)

lemma create_supported:
  "default_to ''2.6.0'' (version opts) \<in> versions \<Longrightarrow>
   create factory opts = BotImpl_new factory opts"
  by (simp add: create_def BotImpl_new_syncId)

text \<open>
  C1. For a version tag \<open>V\<close> of the supported set, \<^verbatim>\<open>create\<close> returns the facade built on
  the adapter that the factory returns for \<open>V\<close>. For a tag outside the set it throws the
  error "Unsupported version: V" (the spec's ConfigurationError; the code throws a plain
  \<^verbatim>\<open>Error\<close>) with no effect at all before it: the adapter factory is not called, and the
  result does not depend on the factory.
\<close>

theorem create_version_gate:
  "(V \<in> versions \<longrightarrow> factory (service_opts_of (opts\<lparr>version := Some V\<rparr>)) = Inr svc \<longrightarrow>
      snd (create factory (opts\<lparr>version := Some V\<rparr>))
        = Inr \<lparr>service = svc, bot_version = V, emitter = new_EventEmitter, heap = []\<rparr>)
   \<and> (V \<notin> versions \<longrightarrow>
      create factory (opts\<lparr>version := Some V\<rparr>) = ([], Inl (Error (''Unsupported version: '' @ V))))"
proof (intro conjI impI)
  assume V: "V \<in> versions" and f: "factory (service_opts_of (opts\<lparr>version := Some V\<rparr>)) = Inr svc"
  let ?o = "opts\<lparr>version := Some V\<rparr>"
  from V have "create factory ?o = BotImpl_new factory ?o"
    by (simp add: create_supported default_to_def)
  with f show "snd (create factory ?o)
      = Inr \<lparr>service = svc, bot_version = V, emitter = new_EventEmitter, heap = []\<rparr>"
    by (simp add: BotImpl_new_def default_to_def)
next
  assume "V \<notin> versions"
  then show "create factory (opts\<lparr>version := Some V\<rparr>)
      = ([], Inl (Error (''Unsupported version: '' @ V)))"
    by (simp add: create_def default_to_def)
qed

theorem create_version_gate_witness:
  "''2.6.0'' \<in> versions
   \<and> snd (create (\<lambda>_. Inr sample_service) (sample_opts\<lparr>version := Some ''2.6.0''\<rparr>)) = Inr sample_bot
   \<and> ''1.0.0'' \<notin> versions
   \<and> create (\<lambda>_. Inr sample_service) (sample_opts\<lparr>version := Some ''1.0.0''\<rparr>)
       = ([], Inl (Error ''Unsupported version: 1.0.0''))"
  using create_version_gate [of "''2.6.0''" "\<lambda>_. Inr sample_service" sample_opts sample_service]
    create_version_gate [of "''1.0.0''" "\<lambda>_. Inr sample_service" sample_opts sample_service]
  by (simp add: versions_def sample_bot_def)






section \<open>Sending\<close>

text \<open>
  C2. When neither \<^verbatim>\<open>qq\<close> nor \<^verbatim>\<open>group\<close> is given, \<^verbatim>\<open>sendMessage\<close> returns a promise
  rejected with the error "qq or group must be specified" (the spec's InvalidArgumentError),
  and no send operation of the adapter is called.
\<close>

theorem sendMessage_no_target:
  "qq opts = None \<Longrightarrow> group opts = None \<Longrightarrow>
   sendMessage b opts = ([], Rejected (Error ''qq or group must be specified''))"
  by (simp add: sendMessage_def)

theorem sendMessage_no_target_witness:
  "qq \<lparr>qq = None, group = None, message = Text ''hello''\<rparr> = None
   \<and> group \<lparr>qq = None, group = None, message = Text ''hello''\<rparr> = None
   \<and> sendMessage sample_bot \<lparr>qq = None, group = None, message = Text ''hello''\<rparr>
       = ([], Rejected (Error ''qq or group must be specified''))"
  using sendMessage_no_target [of "\<lparr>qq = None, group = None, message = Text ''hello''\<rparr>" sample_bot]
  by simp

text \<open>
  C3. With an individual target \<open>q\<close> and a plain-text message \<open>s\<close>, the one call made to the
  adapter is its individual send with the chain of the single segment \<open>Plain s\<close>, and when
  the adapter resolves that call the facade resolves to the \<^verbatim>\<open>messageId\<close> of the response,
  which is \<open>None\<close> when the adapter supplies none.
\<close>

theorem sendMessage_plain_text:
  "qq opts = Some q \<Longrightarrow> message opts = Text s \<Longrightarrow>
   sendFriendMessage (service b) \<lparr>target = q, messageChain = [Plain s]\<rparr> = Fulfilled r \<Longrightarrow>
   sendMessage b opts
     = ([ServiceSendFriendMessage \<lparr>target = q, messageChain = [Plain s]\<rparr>], Fulfilled (messageId r))"
  by (simp add: sendMessage_def message_id_of_def)

theorem sendMessage_plain_text_witness:
  "sendFriendMessage (service sample_bot) \<lparr>target = 123, messageChain = [Plain ''hello'']\<rparr>
     = Fulfilled \<lparr>messageId = Some 42\<rparr>
   \<and> sendMessage sample_bot \<lparr>qq = Some 123, group = None, message = Text ''hello''\<rparr>
       = ([ServiceSendFriendMessage \<lparr>target = 123, messageChain = [Plain ''hello'']\<rparr>],
          Fulfilled (Some 42))"
  using sendMessage_plain_text [of "\<lparr>qq = Some 123, group = None, message = Text ''hello''\<rparr>"
      123 "''hello''" sample_bot "\<lparr>messageId = Some 42\<rparr>"]
  by (simp add: sample_bot_def sample_service_def)

text \<open>
  C9. When both \<^verbatim>\<open>qq\<close> and \<^verbatim>\<open>group\<close> are given, the one call made to the adapter is the
  individual (friend) send to \<^verbatim>\<open>qq\<close>; the group send is not called, and the facade
  resolves to the \<^verbatim>\<open>messageId\<close> of the friend send's response.
\<close>

theorem sendMessage_both_targets:
  "qq opts = Some q \<Longrightarrow> group opts = Some g \<Longrightarrow>
   sendFriendMessage (service b)
     \<lparr>target = q, messageChain = (case message opts of Text s \<Rightarrow> [Plain s] | Chain c \<Rightarrow> c)\<rparr>
     = Fulfilled r \<Longrightarrow>
   sendMessage b opts
     = ([ServiceSendFriendMessage
          \<lparr>target = q, messageChain = (case message opts of Text s \<Rightarrow> [Plain s] | Chain c \<Rightarrow> c)\<rparr>],
        Fulfilled (messageId r))"
  by (simp add: sendMessage_def message_id_of_def)

theorem sendMessage_both_targets_witness:
  "sendFriendMessage (service sample_bot) \<lparr>target = 123, messageChain = [Segment ''Image'']\<rparr>
     = Fulfilled \<lparr>messageId = Some 42\<rparr>
   \<and> sendMessage sample_bot \<lparr>qq = Some 123, group = Some 456, message = Chain [Segment ''Image'']\<rparr>
       = ([ServiceSendFriendMessage \<lparr>target = 123, messageChain = [Segment ''Image'']\<rparr>],
          Fulfilled (Some 42))"
  using sendMessage_both_targets [of "\<lparr>qq = Some 123, group = Some 456, message = Chain [Segment ''Image'']\<rparr>"
      123 456 sample_bot "\<lparr>messageId = Some 42\<rparr>"]
  by (simp add: sample_bot_def sample_service_def)

section \<open>Dispatch\<close>

lemma call_listeners_all:
  "(\<forall>l \<in> set ls. invoke l v = None) \<Longrightarrow> call_listeners ls v = (map (\<lambda>l. (l, v)) ls, None)"
  by (induction ls) simp_all

lemma invoke_quiet:
  "(\<forall>h. Handler h \<in> set ls \<longrightarrow> h v = None) \<Longrightarrow> \<forall>l \<in> set ls. invoke l v = None"
proof
  fix l assume q: "\<forall>h. Handler h \<in> set ls \<longrightarrow> h v = None" and l: "l \<in> set ls"
  then show "invoke l v = None" by (cases l) auto
qed

lemma emit_deliveries:
  assumes "\<forall>h. Handler h \<in> set (e (property_key name)) \<longrightarrow> h v = None"
  shows "fst (emit e name v) = map (\<lambda>l. (l, v)) (e (property_key name))"
proof -
  from call_listeners_all [OF invoke_quiet [OF assms]]
  show ?thesis by (auto simp: emit_def property_key_def)
qed

lemma emit_returns:
  assumes "\<forall>h. Handler h \<in> set (e (property_key name)) \<longrightarrow> h v = None"
    and "e (property_key name) \<noteq> []"
  shows "emit e name v = (map (\<lambda>l. (l, v)) (e (property_key name)), Inr True)"
proof -
  from call_listeners_all [OF invoke_quiet [OF assms(1)]] assms(2)
  show ?thesis by (auto simp: emit_def property_key_def)
qed

lemma BotImpl_new_emitter: "BotImpl_new factory opts = (es, Inr b) \<Longrightarrow> emitter b k = []"
  by (auto simp: BotImpl_new_def new_EventEmitter_def split: sum.splits)

lemma on_emitter:
  "on event listener b = (c, b') \<Longrightarrow>
   emitter b' k = (if k = event then emitter b k @ [ChainRun c] else emitter b k)"
  by (auto simp: on_def Let_def emitter_on_def)

lemma onError_emitter:
  "emitter (onError h b) k = (if k = ''error'' then emitter b k @ [Handler h] else emitter b k)"
  by (simp add: onError_def emitter_on_def)

text \<open>
  On a reachable facade only the names of \<^verbatim>\<open>MiraiEventMap\<close> and \<^verbatim>\<open>'error'\<close> have
  listeners, and the handlers of \<^verbatim>\<open>onError\<close> are on \<^verbatim>\<open>'error'\<close> alone.
\<close>

lemma reachable_unnamed:
  "reachable names b \<Longrightarrow> k \<notin> names \<Longrightarrow> k \<noteq> ''error'' \<Longrightarrow> emitter b k = []"
proof (induction rule: reachable.induct)
  case (constructed factory opts es b)
  then show ?case by (simp add: BotImpl_new_emitter)
next
  case (subscribed b event listener c b')
  then have "k \<noteq> event" by blast
  with subscribed show ?case by (simp add: on_emitter)
next
  case (handled b h)
  then show ?case by (simp add: onError_emitter)
qed

lemma reachable_handlers:
  "reachable names b \<Longrightarrow> Handler h \<in> set (emitter b k) \<Longrightarrow> k = ''error''"
proof (induction rule: reachable.induct)
  case (constructed factory opts es b)
  then show ?case by (simp add: BotImpl_new_emitter)
next
  case (subscribed b event listener c b')
  from subscribed.prems on_emitter [OF subscribed.hyps(3), of k]
  have "Handler h \<in> set (emitter b k)" by (simp split: if_splits)
  then show ?case by (rule subscribed.IH)
next
  case (handled b h')
  show ?case
  proof (cases "k = ''error''")
    case True
    then show ?thesis .
  next
    case False
    with handled.prems have "Handler h \<in> set (emitter b k)" by (simp add: onError_emitter)
    then show ?thesis by (rule handled.IH)
  qed
qed

lemma reachable_sample_bot: "reachable names sample_bot"
proof (rule constructed)
  show "BotImpl_new (\<lambda>_. Inr sample_service) sample_opts
      = ([FactoryCreate (service_opts_of sample_opts), ServiceOn ''miraiEvent'', ServiceOn ''error'',
          ServiceGetAbout], Inr sample_bot)"
    by (simp add: BotImpl_new_def sample_bot_def sample_opts_def default_to_def)
qed

lemma reachable_sample_listening: "reachable {''FriendMessage''} sample_listening"
proof (rule subscribed)
  show "reachable {''FriendMessage''} (onError (\<lambda>_. None) sample_bot)"
    by (rule handled) (rule reachable_sample_bot)
  show "''FriendMessage'' \<in> {''FriendMessage''}" by simp
  show "on ''FriendMessage'' None (onError (\<lambda>_. None) sample_bot)
      = (fst (on ''FriendMessage'' None (onError (\<lambda>_. None) sample_bot)), sample_listening)"
    by (simp add: sample_listening_def)
qed

text \<open>
  C4. An inbound envelope without a type tag (the envelope, its \<^verbatim>\<open>data\<close> or the
  \<^verbatim>\<open>type\<close> absent) is dropped: nothing is delivered to any chain or error handler, and
  \<^verbatim>\<open>emit\<close> returns \<^verbatim>\<open>false\<close> without throwing. \<^verbatim>\<open>emit\<close> looks the absent tag up as the
  property key \<^verbatim>\<open>'undefined'\<close>; the statement is for the facades reachable when that
  string is not an event name of \<^verbatim>\<open>MiraiEventMap\<close>.
\<close>

theorem untyped_envelope_dropped:
  "reachable names b \<Longrightarrow> ''undefined'' \<notin> names \<Longrightarrow>
   Option.bind (Option.bind d data) type = None \<Longrightarrow>
   miraiEvent_listener b d = ([], Inr False)"
proof -
  assume "reachable names b" and "''undefined'' \<notin> names"
  then have "emitter b ''undefined'' = []" by (simp add: reachable_unnamed)
  moreover assume "Option.bind (Option.bind d data) type = None"
  ultimately show ?thesis
    by (simp add: miraiEvent_listener_def emit_def property_key_def)
qed

theorem untyped_envelope_dropped_witness:
  "reachable {''FriendMessage''} sample_listening
   \<and> ''undefined'' \<notin> {''FriendMessage''}
   \<and> Option.bind (Option.bind (Some sample_untyped) data) type = None
   \<and> emitter sample_listening ''FriendMessage'' = [ChainRun 0]
   \<and> emitter sample_listening ''error'' = [Handler (\<lambda>_. None)]
   \<and> miraiEvent_listener sample_listening (Some sample_untyped) = ([], Inr False)"
proof -
  have t: "Option.bind (Option.bind (Some sample_untyped) data) type = None"
    by (simp add: sample_untyped_def)
  have n: "''undefined'' \<notin> {''FriendMessage''}" by simp
  have e: "emitter sample_listening ''FriendMessage'' = [ChainRun 0]"
    "emitter sample_listening ''error'' = [Handler (\<lambda>_. None)]"
    by (simp_all add: sample_listening_def sample_bot_def on_def onError_def emitter_on_def
        new_EventEmitter_def Let_def)
  from untyped_envelope_dropped [OF reachable_sample_listening n t] reachable_sample_listening n t e
  show ?thesis by blast
qed

text \<open>
  C5, as the spec states it, fails: on the facade as constructed, with no listener on the
  \<^verbatim>\<open>'error'\<close> channel, an error pushed on the adapter's error stream is thrown by
  \<^verbatim>\<open>emit\<close> out of the relaying callback, not swallowed.
\<close>

theorem unhandled_error_thrown_counterexample:
  "emitter sample_bot ''error'' = []
   \<and> error_listener sample_bot (ErrorObj (Error ''connection lost''))
       = ([], Inl (Throw (Error ''connection lost'')))"
  by (simp add: error_listener_def emit_def sample_bot_def new_EventEmitter_def)

text \<open>
  C5, amended. While no listener is attached to the \<^verbatim>\<open>'error'\<close> channel, a value pushed on
  the adapter's error stream is delivered to nobody and leaves the relaying callback as an
  exception: the value itself when it is an \<^verbatim>\<open>Error\<close>, \<^verbatim>\<open>ERR_UNHANDLED_ERROR\<close> around it
  otherwise. Once a listener is attached and none of the attached listeners throws, the value
  is delivered to each of them in registration order and nothing is thrown.
\<close>

theorem error_listener_throws_or_delivers:
  "(emitter b ''error'' = [] \<longrightarrow>
      error_listener b err
        = ([], Inl (case err of ErrorObj er \<Rightarrow> Throw er | _ \<Rightarrow> ERR_UNHANDLED_ERROR err)))
   \<and> (emitter b ''error'' \<noteq> [] \<longrightarrow> (\<forall>h. Handler h \<in> set (emitter b ''error'') \<longrightarrow> h err = None) \<longrightarrow>
      error_listener b err = (map (\<lambda>l. (l, err)) (emitter b ''error''), Inr True))"
proof (intro conjI impI)
  assume "emitter b ''error'' = []"
  then show "error_listener b err
      = ([], Inl (case err of ErrorObj er \<Rightarrow> Throw er | _ \<Rightarrow> ERR_UNHANDLED_ERROR err))"
    by (simp add: error_listener_def emit_def)
next
  assume ne: "emitter b ''error'' \<noteq> []"
    and q: "\<forall>h. Handler h \<in> set (emitter b ''error'') \<longrightarrow> h err = None"
  from emit_returns [of "emitter b" "Some ''error''" err] ne q
  show "error_listener b err = (map (\<lambda>l. (l, err)) (emitter b ''error''), Inr True)"
    by (simp add: error_listener_def property_key_def)
qed

theorem error_listener_throws_or_delivers_witness:
  "emitter sample_bot ''error'' = []
   \<and> error_listener sample_bot (ErrorObj (Error ''timeout'')) = ([], Inl (Throw (Error ''timeout'')))
   \<and> emitter (onError (\<lambda>_. None) sample_bot) ''error'' = [Handler (\<lambda>_. None)]
   \<and> error_listener (onError (\<lambda>_. None) sample_bot) (ErrorObj (Error ''timeout''))
       = ([(Handler (\<lambda>_. None), ErrorObj (Error ''timeout''))], Inr True)"
  using error_listener_throws_or_delivers [of sample_bot "ErrorObj (Error ''timeout'')"]
    error_listener_throws_or_delivers [of "onError (\<lambda>_. None) sample_bot" "ErrorObj (Error ''timeout'')"]
  by (simp add: sample_bot_def onError_def emitter_on_def new_EventEmitter_def)

text \<open>
  C10. An inbound envelope whose type tag is the string \<^verbatim>\<open>'error'\<close> is handled exactly as
  its \<^verbatim>\<open>data\<close> pushed on the adapter's error stream would be: the same deliveries and the
  same result. When none of the listeners of the \<^verbatim>\<open>'error'\<close> channel throws, every one of
  them, in registration order, receives the envelope's \<^verbatim>\<open>data\<close>.
\<close>

theorem error_event_reaches_error_handlers:
  "data env = Some d \<Longrightarrow> type d = Some ''error'' \<Longrightarrow>
   miraiEvent_listener b (Some env) = error_listener b (Data d)
   \<and> ((\<forall>h. Handler h \<in> set (emitter b ''error'') \<longrightarrow> h (Data d) = None) \<longrightarrow>
        fst (miraiEvent_listener b (Some env)) = map (\<lambda>l. (l, Data d)) (emitter b ''error''))"
proof (intro conjI impI)
  assume d: "data env = Some d" and t: "type d = Some ''error''"
  then show eq: "miraiEvent_listener b (Some env) = error_listener b (Data d)"
    by (simp add: miraiEvent_listener_def error_listener_def)
  assume "\<forall>h. Handler h \<in> set (emitter b ''error'') \<longrightarrow> h (Data d) = None"
  with emit_deliveries [of "emitter b" "Some ''error''" "Data d"]
  show "fst (miraiEvent_listener b (Some env)) = map (\<lambda>l. (l, Data d)) (emitter b ''error'')"
    by (simp add: eq error_listener_def property_key_def)
qed

theorem error_event_reaches_error_handlers_witness:
  "data sample_error_event = Some \<lparr>type = Some ''error'', rest = ''failure''\<rparr>
   \<and> miraiEvent_listener sample_handled (Some sample_error_event)
       = error_listener sample_handled (Data \<lparr>type = Some ''error'', rest = ''failure''\<rparr>)
   \<and> fst (miraiEvent_listener sample_handled (Some sample_error_event))
       = [(Handler (\<lambda>v. if v = Undefined then Some (Error ''none'') else None),
             Data \<lparr>type = Some ''error'', rest = ''failure''\<rparr>),
          (Handler (\<lambda>_. None), Data \<lparr>type = Some ''error'', rest = ''failure''\<rparr>)]"
  using error_event_reaches_error_handlers [of sample_error_event
      "\<lparr>type = Some ''error'', rest = ''failure''\<rparr>" sample_handled]
  by (auto simp add: sample_error_event_def sample_handled_def sample_bot_def onError_def
      emitter_on_def new_EventEmitter_def)

text \<open>
  C7. \<^verbatim>\<open>on(event, listener?)\<close> allocates a new chain (its reference is the next free index
  of the store, and the chains already there are untouched), whose stages are the given
  listener alone when one is given and none otherwise, appends the run of that chain to the
  listeners of \<open>event\<close>, and returns the chain. An envelope of that type is then delivered
  to every listener that was attached under \<open>event\<close> before, and to the new chain: fan-out.
  (A listener that throws cuts \<^verbatim>\<open>emit\<close> short; only the handlers that \<^verbatim>\<open>onError\<close> attaches
  can, which is what the hypothesis on them is for. By \<open>reachable_handlers\<close> there is none
  under any event name but \<^verbatim>\<open>'error'\<close>.)
\<close>

theorem on_registers_and_fans_out:
  "on event listener b = (c, b') \<Longrightarrow>
   c = length (heap b)
   \<and> heap b' = heap b @ [\<lparr>stages = (case listener of None \<Rightarrow> [] | Some f \<Rightarrow> [f])\<rparr>]
   \<and> emitter b' = (emitter b)(event := emitter b event @ [ChainRun c])
   \<and> (data env = Some d \<longrightarrow> type d = Some event \<longrightarrow>
        (\<forall>h. Handler h \<in> set (emitter b event) \<longrightarrow> h (Data d) = None) \<longrightarrow>
        fst (miraiEvent_listener b' (Some env))
          = map (\<lambda>l. (l, Data d)) (emitter b event) @ [(ChainRun c, Data d)])"
proof (intro conjI impI)
  assume o: "on event listener b = (c, b')"
  then show c: "c = length (heap b)" by (auto simp: on_def Let_def)
  from o show "heap b' = heap b @ [\<lparr>stages = (case listener of None \<Rightarrow> [] | Some f \<Rightarrow> [f])\<rparr>]"
    by (auto simp: on_def Let_def pipe_def new_ProcessChain_def split: option.splits)
  from o show e: "emitter b' = (emitter b)(event := emitter b event @ [ChainRun c])"
    by (auto simp: on_def Let_def emitter_on_def)
  assume d: "data env = Some d" and t: "type d = Some event"
    and q: "\<forall>h. Handler h \<in> set (emitter b event) \<longrightarrow> h (Data d) = None"
  from q e have "\<forall>h. Handler h \<in> set (emitter b' (property_key (Some event))) \<longrightarrow> h (Data d) = None"
    by (simp add: property_key_def)
  with emit_deliveries [of "emitter b'" "Some event" "Data d"] d t e
  show "fst (miraiEvent_listener b' (Some env))
      = map (\<lambda>l. (l, Data d)) (emitter b event) @ [(ChainRun c, Data d)]"
    by (simp add: miraiEvent_listener_def property_key_def)
qed

theorem on_registers_and_fans_out_witness:
  "on ''FriendMessage'' (Some Next) sample_subscribed
     = (1, sample_bot\<lparr>heap := [\<lparr>stages = []\<rparr>, \<lparr>stages = [Next]\<rparr>],
                      emitter := new_EventEmitter(''FriendMessage'' := [ChainRun 0, ChainRun 1])\<rparr>)
   \<and> fst (miraiEvent_listener (snd (on ''FriendMessage'' (Some Next) sample_subscribed)) (Some sample_event))
       = [(ChainRun 0, Data \<lparr>type = Some ''FriendMessage'', rest = ''hi''\<rparr>),
          (ChainRun 1, Data \<lparr>type = Some ''FriendMessage'', rest = ''hi''\<rparr>)]"
proof -
  have o: "on ''FriendMessage'' (Some Next) sample_subscribed
     = (1, sample_bot\<lparr>heap := [\<lparr>stages = []\<rparr>, \<lparr>stages = [Next]\<rparr>],
                      emitter := new_EventEmitter(''FriendMessage'' := [ChainRun 0, ChainRun 1])\<rparr>)"
    by (simp add: on_def sample_subscribed_def sample_bot_def Let_def emitter_on_def
        new_EventEmitter_def pipe_def new_ProcessChain_def fun_eq_iff)
  have e: "emitter sample_subscribed ''FriendMessage'' = [ChainRun 0]"
    by (simp add: on_def sample_subscribed_def sample_bot_def Let_def emitter_on_def
        new_EventEmitter_def)
  let ?d = "\<lparr>type = Some ''FriendMessage'', rest = ''hi''\<rparr>"
  let ?b = "sample_bot\<lparr>heap := [\<lparr>stages = []\<rparr>, \<lparr>stages = [Next]\<rparr>],
                      emitter := new_EventEmitter(''FriendMessage'' := [ChainRun 0, ChainRun 1])\<rparr>"
  have "data sample_event = Some ?d \<longrightarrow> type ?d = Some ''FriendMessage'' \<longrightarrow>
        (\<forall>h. Handler h \<in> set (emitter sample_subscribed ''FriendMessage'') \<longrightarrow> h (Data ?d) = None) \<longrightarrow>
        fst (miraiEvent_listener ?b (Some sample_event))
          = map (\<lambda>l. (l, Data ?d)) (emitter sample_subscribed ''FriendMessage'') @ [(ChainRun 1, Data ?d)]"
    using on_registers_and_fans_out [OF o, of sample_event ?d] by blast
  then have "fst (miraiEvent_listener ?b (Some sample_event)) = [(ChainRun 0, Data ?d), (ChainRun 1, Data ?d)]"
    by (simp add: e sample_event_def)
  with o show ?thesis by simp
qed

section \<open>One occurrence of a chain\<close>

lemma stages_fold_pipe: "stages (fold pipe ss c) = stages c @ ss"
  by (induction ss arbitrary: c) (simp_all add: pipe_def)

lemma starts_index:
  "run_from k fs x = (tr, out) \<Longrightarrow> i < length (starts tr) \<Longrightarrow> fst (starts tr ! i) = k + i"
proof (induction fs arbitrary: k x tr out i)
  case Nil
  then show ?case by simp
next
  case (Cons f fs)
  show ?case
  proof (cases "f x")
    case (Next y)
    obtain tr' out' where r: "run_from (Suc k) fs y = (tr', out')" by (cases "run_from (Suc k) fs y")
    from Cons.prems Next r have tr: "tr = StageStart k x # StageEnd k (Next y) # tr'" by simp
    show ?thesis
    proof (cases i)
      case 0
      with tr show ?thesis by simp
    next
      case (Suc j)
      with Cons.prems(2) tr have "j < length (starts tr')" by simp
      from Cons.IH [OF r this] tr Suc show ?thesis by simp
    qed
  next
    case Terminate
    with Cons.prems show ?thesis by auto
  next
    case (Fail e)
    with Cons.prems show ?thesis by auto
  qed
qed

lemma starts_length:
  "run_from k fs x = (tr, out) \<Longrightarrow> length (starts tr) \<le> length fs"
  by (induction fs arbitrary: k x tr out) (auto split: stage_result.splits prod.splits)

lemma starts_first:
  "run_from k fs x = (tr, out) \<Longrightarrow> fs \<noteq> [] \<Longrightarrow> starts tr \<noteq> [] \<and> snd (starts tr ! 0) = x"
  by (cases fs) (auto split: stage_result.splits prod.splits)

lemma starts_chain:
  "run_from k fs x = (tr, out) \<Longrightarrow> Suc i < length (starts tr) \<Longrightarrow>
   (fs ! i) (snd (starts tr ! i)) = Next (snd (starts tr ! Suc i))"
proof (induction fs arbitrary: k x tr out i)
  case Nil
  then show ?case by simp
next
  case (Cons f fs)
  show ?case
  proof (cases "f x")
    case (Next y)
    obtain tr' out' where r: "run_from (Suc k) fs y = (tr', out')" by (cases "run_from (Suc k) fs y")
    from Cons.prems Next r have tr: "tr = StageStart k x # StageEnd k (Next y) # tr'" by simp
    show ?thesis
    proof (cases i)
      case 0
      from Cons.prems(2) tr 0 have ne: "fs \<noteq> []" using starts_length [OF r] by auto
      from starts_first [OF r ne] tr 0 Next show ?thesis by (cases "starts tr'") auto
    next
      case (Suc j)
      with Cons.prems(2) tr have "Suc j < length (starts tr')" by simp
      from Cons.IH [OF r this] tr Suc show ?thesis by simp
    qed
  next
    case Terminate
    with Cons.prems show ?thesis by auto
  next
    case (Fail e)
    with Cons.prems show ?thesis by auto
  qed
qed

lemma starts_steps:
  "run_from k fs x = (tr, out) \<Longrightarrow>
   tr = concat (map (\<lambda>(j, v). [StageStart j v, StageEnd j ((fs ! (j - k)) v)]) (starts tr))"
proof (induction fs arbitrary: k x tr out)
  case Nil
  then show ?case by simp
next
  case (Cons f fs)
  show ?case
  proof (cases "f x")
    case (Next y)
    obtain tr' out' where r: "run_from (Suc k) fs y = (tr', out')" by (cases "run_from (Suc k) fs y")
    from Cons.prems Next r have tr: "tr = StageStart k x # StageEnd k (Next y) # tr'" by simp
    have ge: "\<forall>p \<in> set (starts tr'). Suc k \<le> fst p"
    proof
      fix p assume "p \<in> set (starts tr')"
      then obtain i where "i < length (starts tr')" "starts tr' ! i = p"
        by (auto simp: in_set_conv_nth)
      with starts_index [OF r, of i] show "Suc k \<le> fst p" by auto
    qed
    let ?G = "\<lambda>(j, v). [StageStart j v, StageEnd j (((f # fs) ! (j - k)) v)]"
    let ?H = "\<lambda>(j, v). [StageStart j v, StageEnd j ((fs ! (j - Suc k)) v)]"
    have eq: "map ?G (starts tr') = map ?H (starts tr')"
    proof (rule map_cong [OF refl])
      fix p assume "p \<in> set (starts tr')"
      with ge have "Suc k \<le> fst p" by blast
      then have "fst p - k = Suc (fst p - Suc k)" by simp
      then show "?G p = ?H p" by (cases p) simp
    qed
    have "tr' = concat (map ?H (starts tr'))" by (rule Cons.IH [OF r])
    then have rest: "concat (map ?G (starts tr')) = tr'" by (simp only: eq)
    have "concat (map ?G (starts tr)) = StageStart k x # StageEnd k (Next y) # concat (map ?G (starts tr'))"
      using tr Next by simp
    also have "\<dots> = tr" by (simp only: rest tr)
    finally show ?thesis by (rule sym)
  next
    case Terminate
    with Cons.prems show ?thesis by auto
  next
    case (Fail e)
    with Cons.prems show ?thesis by auto
  qed
qed

lemma starts_order:
  assumes "run_from 0 fs x = (tr, out)"
  shows "map fst (starts tr) = [0..<length (starts tr)]"
proof (rule nth_equalityI)
  show "length (map fst (starts tr)) = length [0..<length (starts tr)]" by simp
next
  fix i assume "i < length (map fst (starts tr))"
  then have i: "i < length (starts tr)" by simp
  with starts_index [OF assms i] show "map fst (starts tr) ! i = [0..<length (starts tr)] ! i"
    by simp
qed

lemma run_from_outcome:
  "run_from k fs x = (tr, out) \<Longrightarrow>
   (case out of
      Completed y \<Rightarrow> length (starts tr) = length fs
    | Terminated \<Rightarrow> starts tr \<noteq> [] \<and> (fs ! (length (starts tr) - 1)) (snd (last (starts tr))) = Terminate
    | Failed e \<Rightarrow> starts tr \<noteq> [] \<and> (fs ! (length (starts tr) - 1)) (snd (last (starts tr))) = Fail e)"
proof (induction fs arbitrary: k x tr out)
  case Nil
  then show ?case by auto
next
  case (Cons f fs)
  show ?case
  proof (cases "f x")
    case (Next y)
    obtain tr' out' where r: "run_from (Suc k) fs y = (tr', out')" by (cases "run_from (Suc k) fs y")
    from Cons.prems Next r have tr: "tr = StageStart k x # StageEnd k (Next y) # tr'" and out: "out = out'"
      by simp_all
    from Cons.IH [OF r] tr out show ?thesis
      by (cases out') (auto simp: neq_Nil_conv)
  next
    case Terminate
    with Cons.prems show ?thesis by auto
  next
    case (Fail e)
    with Cons.prems show ?thesis by auto
  qed
qed

text \<open>
  C8. For the chain built by piping the stages \<open>ss\<close> in order, one occurrence on \<open>x\<close> runs
  as follows. The stages that start are stages \<open>0, 1, \<dots>\<close> in registration order, with no
  gap; each start is followed at once by the completion of the same stage, so a stage starts
  only after its predecessor has completed; the first stage is given \<open>x\<close>, and stage
  \<open>k + 1\<close> is given exactly the payload that stage \<open>k\<close> passed on. All stages run when the
  occurrence completes; otherwise the last stage that ran is the one that returned the
  terminal signal or, the other way the spec gives for an occurrence to end, raised a failure.
\<close>

theorem run_sequential:
  assumes "run (fold pipe ss new_ProcessChain) x = (tr, out)"
  shows "map fst (starts tr) = [0..<length (starts tr)]
       \<and> length (starts tr) \<le> length ss
       \<and> tr = concat (map (\<lambda>(k, v). [StageStart k v, StageEnd k ((ss ! k) v)]) (starts tr))
       \<and> (ss \<noteq> [] \<longrightarrow> starts tr \<noteq> [] \<and> snd (starts tr ! 0) = x)
       \<and> (\<forall>k. Suc k < length (starts tr) \<longrightarrow>
             (ss ! k) (snd (starts tr ! k)) = Next (snd (starts tr ! Suc k)))
       \<and> (case out of
            Completed y \<Rightarrow> length (starts tr) = length ss
          | Terminated \<Rightarrow>
              starts tr \<noteq> [] \<and> (ss ! (length (starts tr) - 1)) (snd (last (starts tr))) = Terminate
          | Failed e \<Rightarrow>
              starts tr \<noteq> [] \<and> (ss ! (length (starts tr) - 1)) (snd (last (starts tr))) = Fail e)"
proof -
  have "stages (fold pipe ss new_ProcessChain) = ss"
    by (simp add: stages_fold_pipe new_ProcessChain_def)
  with assms have r: "run_from 0 ss x = (tr, out)" by (simp add: run_def)
  from starts_steps [OF r]
  have steps: "tr = concat (map (\<lambda>(k, v). [StageStart k v, StageEnd k ((ss ! k) v)]) (starts tr))"
    by simp
  from starts_chain [OF r]
  have chain: "\<forall>k. Suc k < length (starts tr) \<longrightarrow>
      (ss ! k) (snd (starts tr ! k)) = Next (snd (starts tr ! Suc k))" by blast
  from starts_first [OF r]
  have first: "ss \<noteq> [] \<longrightarrow> starts tr \<noteq> [] \<and> snd (starts tr ! 0) = x" by blast
  from starts_order [OF r] starts_length [OF r] steps first chain run_from_outcome [OF r]
  show ?thesis by blast
qed

theorem run_sequential_witness:
  "run (fold pipe sample_stages new_ProcessChain) 3
     = ([StageStart 0 3, StageEnd 0 (Next 4), StageStart 1 4, StageEnd 1 (Next 8),
         StageStart 2 8, StageEnd 2 Terminate], Terminated)
   \<and> starts [StageStart 0 3, StageEnd 0 (Next 4), StageStart 1 4, StageEnd 1 (Next 8),
         StageStart 2 8, StageEnd 2 Terminate] = [(0, 3), (1, 4), (2, 8::nat)]
   \<and> (sample_stages ! 0) 3 = Next 4 \<and> (sample_stages ! 1) 4 = Next 8 \<and> (sample_stages ! 2) 8 = Terminate"
proof -
  have r: "run (fold pipe sample_stages new_ProcessChain) 3
     = ([StageStart 0 3, StageEnd 0 (Next 4), StageStart 1 4, StageEnd 1 (Next 8),
         StageStart 2 8, StageEnd 2 Terminate], Terminated)"
    by (simp add: run_def sample_stages_def pipe_def new_ProcessChain_def)
  from run_sequential [OF r] r show ?thesis
    by (simp add: sample_stages_def)
qed

end
